theory Spec2Isabelle
  imports Main "HOL-Library.Word"
begin

unbundle bit_operations_syntax

section \<open>Data model of package \<open>eth_observer\<close>\<close>

text \<open>
  Go's \<open>int\<close> and \<open>int64\<close> are modelled as 64-bit words (the 64-bit targets, where
  \<open>int\<close> is as wide as \<open>int64\<close> and \<open>int(x)\<close> is the identity); \<open>+\<close> wraps as Go's
  signed addition does, and the comparisons of the source are comparisons of \<open>sint\<close>.
  A Go \<open>string\<close> is its byte sequence, a \<open>map[K]struct{}\<close> is a set of keys.
\<close>

type_synonym go_int = "64 word"

text \<open>The elements of \<open>AccessList []interface{}\<close>: no function of the package looks at them.\<close>

datatype json_any = JsonAny

record Transaction =
  BlockHash :: string
  BlockNumber :: string
  From :: string
  Gas :: string
  GasPrice :: string
  MaxFeePerGas :: string
  MaxPriorityFeePerGas :: string
  Hash :: string
  Input :: string
  Nonce :: string
  To :: string
  TransactionIndex :: string
  Value :: string
  Type :: string
  AccessList :: "json_any list"
  ChainId :: string
  V :: string
  R :: string
  S :: string
  YParity :: string

text \<open>The values the package puts into \<open>Params []interface{}\<close>: a string and a bool.\<close>

datatype param = PString string | PBool bool

record EthRequestStruct =
  Jsonrpc_req :: string
  Method :: string
  Params :: "param list"
  Id_req :: go_int

record EthErrorStruct =
  Code :: go_int
  Message :: string

text \<open>
  \<open>Result json.RawMessage\<close> is kept as what the raw bytes are as JSON, since the package
  only ever hands them to \<open>json.Unmarshal\<close>: a JSON string, the literal \<open>null\<close>, an
  object that decodes as a \<open>block\<close> with the given transaction list, or anything else
  (absent, truncated, of another shape).
\<close>

datatype raw_message =
  RawString string
  | RawNull
  | RawBlock "Transaction list"
  | RawOther

record EthResponseStruct =
  Jsonrpc_resp :: string
  Result :: raw_message
  Error :: "EthErrorStruct option"
  Id_resp :: go_int

datatype error =
  TransportError
  | RpcError go_int string
  | IdMismatchError
  | UnmarshalError
  | InvalidBlockNumber
  | ParseSyntaxError
  | ParseRangeError

text \<open>A Go call either returns or panics.\<close>

datatype 'a outcome = Panic | Return 'a

text \<open>
  The node as seen by one call of \<open>QueryEthClient\<close>: the decoded response to a request,
  or \<open>None\<close> when encoding, \<open>http.Post\<close>, \<open>io.ReadAll\<close> or decoding the body fails.
\<close>

type_synonym rpc = "EthRequestStruct \<Rightarrow> EthResponseStruct option"

section \<open>The RPC client boundary\<close>

definition QueryEthClient :: "rpc \<Rightarrow> EthRequestStruct \<Rightarrow> error + EthResponseStruct" where
  "QueryEthClient node request =
     (case node request of
        None \<Rightarrow> Inl TransportError
      | Some response \<Rightarrow>
          (case Error response of
             Some er \<Rightarrow> Inl (RpcError (Code er) (Message er))
           | None \<Rightarrow>
               if Id_resp response \<noteq> Id_req request then Inl IdMismatchError
               else Inr response))"

section \<open>Library functions the package calls\<close>

text \<open>
  \<open>json.Unmarshal\<close> into a \<open>string\<close> variable and into a \<open>block\<close>. A JSON \<open>null\<close>
  leaves a non-pointer target as it was (here the zero value) and is no error; a value of
  another shape is an error.
\<close>

fun Unmarshal_string :: "raw_message \<Rightarrow> error + string" where
  "Unmarshal_string (RawString s) = Inr s"
| "Unmarshal_string RawNull = Inr []"
| "Unmarshal_string (RawBlock txs) = Inl UnmarshalError"
| "Unmarshal_string RawOther = Inl UnmarshalError"

fun Unmarshal_block :: "raw_message \<Rightarrow> error + Transaction list" where
  "Unmarshal_block (RawBlock txs) = Inr txs"
| "Unmarshal_block RawNull = Inr []"
| "Unmarshal_block (RawString s) = Inl UnmarshalError"
| "Unmarshal_block RawOther = Inl UnmarshalError"

text \<open>
  \<open>strconv.ParseInt(s, 16, 64)\<close>, after the library's source: an optional sign, then
  \<open>ParseUint\<close>, whose loop reads one byte at a time (\<open>lower(c) = c | 0x20\<close>), rejects a
  byte that is no digit below the base, and stops with a range error as soon as the next
  multiplication by 16 would leave 64 bits. The \<open>uint64\<close> accumulator is a \<open>nat\<close> that
  the range test keeps below \<open>2 ^ 64\<close>.
\<close>

definition lower :: "nat \<Rightarrow> nat" where
  "lower c = c OR 32"

definition digit_value :: "char \<Rightarrow> nat option" where
  "digit_value ch =
     (let c = (of_char ch :: nat) in
      if 48 \<le> c \<and> c \<le> 57 then Some (c - 48)
      else if 97 \<le> lower c \<and> lower c \<le> 122 then Some (lower c - 97 + 10)
      else None)"

fun parse_loop :: "nat \<Rightarrow> string \<Rightarrow> error + nat" where
  "parse_loop n [] = Inr n"
| "parse_loop n (c # cs) =
     (case digit_value c of
        None \<Rightarrow> Inl ParseSyntaxError
      | Some d \<Rightarrow>
          if d \<ge> 16 then Inl ParseSyntaxError
          else if n \<ge> 2 ^ 60 then Inl ParseRangeError
          else parse_loop (n * 16 + d) cs)"

definition ParseUint :: "string \<Rightarrow> error + nat" where
  "ParseUint s = (if s = [] then Inl ParseSyntaxError else parse_loop 0 s)"

definition ParseInt :: "string \<Rightarrow> error + go_int" where
  "ParseInt s =
     (if s = [] then Inl ParseSyntaxError
      else
        let neg = (hd s = CHR ''-'');
            s' = (if hd s = CHR ''+'' \<or> hd s = CHR ''-'' then tl s else s)
        in case ParseUint s' of
             Inl ParseSyntaxError \<Rightarrow> Inl ParseSyntaxError
           | r \<Rightarrow>
               let un = (case r of Inr n \<Rightarrow> n | Inl _ \<Rightarrow> 2 ^ 64 - 1) in
               if \<not> neg \<and> un \<ge> 2 ^ 63 then Inl ParseRangeError
               else if neg \<and> un > 2 ^ 63 then Inl ParseRangeError
               else Inr (if neg then - of_nat un else of_nat un))"

text \<open>
  \<open>fmt.Sprintf("0x%x", v)\<close> for an \<open>int\<close>: the sign, if negative, and the magnitude in
  lower-case hexadecimal without leading zeros.
\<close>

definition hexdigit :: "nat \<Rightarrow> char" where
  "hexdigit d = ''0123456789abcdef'' ! d"

fun hex :: "nat \<Rightarrow> string" where
  "hex u = (if u < 16 then [hexdigit u] else hex (u div 16) @ [hexdigit (u mod 16)])"

declare hex.simps [simp del]

definition Sprintf_0x :: "go_int \<Rightarrow> string" where
  "Sprintf_0x v =
     ''0x'' @ (if sint v < 0 then ''-'' @ hex (nat (- sint v)) else hex (nat (sint v)))"

text \<open>\<open>strings.ToLower\<close> on the ASCII strings that addresses are: \<open>A\<close> to \<open>Z\<close> become
  \<open>a\<close> to \<open>z\<close>, every other byte stays.\<close>

definition ascii_lower :: "char \<Rightarrow> char" where
  "ascii_lower ch =
     (let c = (of_char ch :: nat) in if 65 \<le> c \<and> c \<le> 90 then char_of (c + 32) else ch)"

definition ascii_ToLower :: "string \<Rightarrow> string" where
  "ascii_ToLower s = map ascii_lower s"

section \<open>Package \<open>memorystore\<close>\<close>

record memStore =
  transactions :: "string \<rightharpoonup> Transaction list"

definition NewMemStore :: memStore where
  "NewMemStore = \<lparr>transactions = Map.empty\<rparr>"

text \<open>Reading a key a Go map does not hold gives the nil slice.\<close>

definition lookup_txs :: "(string \<rightharpoonup> Transaction list) \<Rightarrow> string \<Rightarrow> Transaction list" where
  "lookup_txs m address = (case m address of None \<Rightarrow> [] | Some txs \<Rightarrow> txs)"

definition memStore_AddTransactions :: "string \<Rightarrow> Transaction list \<Rightarrow> memStore \<Rightarrow> memStore" where
  "memStore_AddTransactions address txs m =
     m\<lparr>transactions := (transactions m)(address \<mapsto> lookup_txs (transactions m) address @ txs)\<rparr>"

definition memStore_GetTransactions :: "string \<Rightarrow> memStore \<Rightarrow> Transaction list" where
  "memStore_GetTransactions address m = lookup_txs (transactions m) address"

section \<open>The block fetcher\<close>

definition GetBlockNumber :: "rpc \<Rightarrow> (error + string) outcome" where
  "GetBlockNumber node =
     (let blockNumReq = \<lparr>Jsonrpc_req = ''2.0'', Method = ''eth_blockNumber'', Params = [],
                          Id_req = 0\<rparr>
      in case QueryEthClient node blockNumReq of
           Inl err \<Rightarrow> Return (Inl err)
         | Inr response \<Rightarrow>
             (case Unmarshal_string (Result response) of
                Inl err \<Rightarrow> Return (Inl err)
              | Inr blockNum \<Rightarrow>
                  if length blockNum < 2 then Panic
                  else if take 2 blockNum \<noteq> ''0x'' then Return (Inl InvalidBlockNumber)
                  else (case ParseInt (drop 2 blockNum) of
                          Inl err \<Rightarrow> Return (Inl err)
                        | Inr _ \<Rightarrow> Return (Inr blockNum))))"

definition GetBlockByNumber :: "rpc \<Rightarrow> string \<Rightarrow> error + Transaction list" where
  "GetBlockByNumber node blockNum =
     (let blockNumReq = \<lparr>Jsonrpc_req = ''2.0'', Method = ''eth_getBlockByNumber'',
                          Params = [PString blockNum, PBool True], Id_req = 0\<rparr>
      in case QueryEthClient node blockNumReq of
           Inl err \<Rightarrow> Inl err
         | Inr response \<Rightarrow> Unmarshal_block (Result response))"

section \<open>The observer\<close>

text \<open>
  The state of an \<open>EthereumObserver\<close>. The store behind the \<open>TransactionsStore\<close>
  interface is the repository's \<open>memStore\<close>. The state-passing functions below are the
  sequential behaviour of the methods; which of them take \<open>mux\<close> is recorded apart, in
  the access traces at the end of this section.
\<close>

record EthereumObserver =
  endpoint :: string
  latestBlock :: go_int
  blocksToRead :: "go_int set"
  subscribedAddress :: "string set"
  transactionsStore :: memStore

definition NewEthereumObserver :: "string \<Rightarrow> memStore \<Rightarrow> EthereumObserver" where
  "NewEthereumObserver ep txStore =
     \<lparr>endpoint = ep, latestBlock = 0, blocksToRead = {}, subscribedAddress = {},
      transactionsStore = txStore\<rparr>"

text \<open>The body of the inner loop of \<open>collectSubscribedAddresses\<close>, for one address.\<close>

definition collect_address ::
  "string set \<Rightarrow> Transaction \<Rightarrow> string \<Rightarrow> (string \<rightharpoonup> Transaction list)
     \<Rightarrow> (string \<rightharpoonup> Transaction list)" where
  "collect_address subs transaction address transactionsByAddress =
     (if address \<in> subs
      then transactionsByAddress(address \<mapsto> lookup_txs transactionsByAddress address @ [transaction])
      else transactionsByAddress)"

fun collect_loop ::
  "string set \<Rightarrow> Transaction list \<Rightarrow> (string \<rightharpoonup> Transaction list)
     \<Rightarrow> (string \<rightharpoonup> Transaction list)" where
  "collect_loop subs [] transactionsByAddress = transactionsByAddress"
| "collect_loop subs (transaction # rest) transactionsByAddress =
     collect_loop subs rest
       (collect_address subs transaction (To transaction)
          (collect_address subs transaction (From transaction) transactionsByAddress))"

definition collectSubscribedAddresses ::
  "EthereumObserver \<Rightarrow> Transaction list \<Rightarrow> (string \<rightharpoonup> Transaction list)" where
  "collectSubscribedAddresses e txs = collect_loop (subscribedAddress e) txs Map.empty"

definition addBlockToRead :: "go_int \<Rightarrow> EthereumObserver \<Rightarrow> EthereumObserver" where
  "addBlockToRead blockNum e = e\<lparr>blocksToRead := insert blockNum (blocksToRead e)\<rparr>"

definition removeBlockToRead :: "go_int \<Rightarrow> EthereumObserver \<Rightarrow> EthereumObserver" where
  "removeBlockToRead blockNum e = e\<lparr>blocksToRead := blocksToRead e - {blockNum}\<rparr>"

definition updateLatestBlock :: "go_int \<Rightarrow> EthereumObserver \<Rightarrow> bool \<times> EthereumObserver" where
  "updateLatestBlock blockNum e =
     (if sint blockNum > sint (latestBlock e) then (True, e\<lparr>latestBlock := blockNum\<rparr>)
      else (False, e))"

text \<open>
  The loop \<open>for address, transactions := range transactionsByAddress\<close> calls
  \<open>AddTransactions\<close> once for every key of the map, in an order Go leaves open. Each call
  touches the entry of its own key only, so the store after the loop is given entry by
  entry (\<open>store_all_fold\<close> below: every order of the keys gives this store).
\<close>

definition store_all :: "(string \<rightharpoonup> Transaction list) \<Rightarrow> memStore \<Rightarrow> memStore" where
  "store_all transactionsByAddress m =
     m\<lparr>transactions :=
         (\<lambda>address. case transactionsByAddress address of
                       None \<Rightarrow> transactions m address
                     | Some txs \<Rightarrow> Some (lookup_txs (transactions m) address @ txs))\<rparr>"

definition UpdateTransactions :: "rpc \<Rightarrow> go_int \<Rightarrow> EthereumObserver \<Rightarrow> EthereumObserver" where
  "UpdateTransactions node blockNum e =
     (let blockNumStr = Sprintf_0x blockNum in
      case GetBlockByNumber node blockNumStr of
        Inl err \<Rightarrow> addBlockToRead blockNum e
      | Inr txs \<Rightarrow>
          let transactionsByAddress = collectSubscribedAddresses e txs;
              e' = e\<lparr>transactionsStore := store_all transactionsByAddress (transactionsStore e)\<rparr>
          in snd (updateLatestBlock blockNum e'))"

text \<open>
  \<open>strings.ToLower\<close> is a parameter of \<open>Subscribe\<close> and \<open>GetTransactions\<close>: what is
  proved of them holds for the library's function on every string, whatever it does
  outside ASCII.
\<close>

definition Subscribe ::
  "(string \<Rightarrow> string) \<Rightarrow> string \<Rightarrow> EthereumObserver \<Rightarrow> bool \<times> EthereumObserver" where
  "Subscribe ToLower address e =
     (if ToLower address \<in> subscribedAddress e then (False, e)
      else (True, e\<lparr>subscribedAddress := insert (ToLower address) (subscribedAddress e)\<rparr>))"

definition GetCurrentBlock :: "EthereumObserver \<Rightarrow> go_int" where
  "GetCurrentBlock e = latestBlock e"

definition GetTransactions ::
  "(string \<Rightarrow> string) \<Rightarrow> string \<Rightarrow> EthereumObserver \<Rightarrow> Transaction list" where
  "GetTransactions ToLower address e =
     memStore_GetTransactions (ToLower address) (transactionsStore e)"

subsection \<open>\<open>ObserveChain\<close>: the seed loop\<close>

text \<open>
  The loop \<open>for blocknum == 0\<close> tests the variable declared before it. In the body,
  \<open>blocknum, err := strconv.ParseInt(...)\<close> is a short variable declaration in the scope
  of the body, where \<open>err\<close> is already declared and \<open>blocknum\<close> is not: it declares a new
  \<open>blocknum\<close> (\<open>parsed\<close> below) and leaves the outer one alone, so every recursive call
  passes the outer \<open>blocknum\<close> on as it is. \<open>nodes k\<close> is the node at the loop's \<open>k\<close>-th
  call. The first argument bounds the number of iterations: \<open>None\<close> is a loop still
  running when they are used up.
\<close>

fun seed_loop ::
  "nat \<Rightarrow> (nat \<Rightarrow> rpc) \<Rightarrow> nat \<Rightarrow> go_int \<Rightarrow> EthereumObserver \<Rightarrow> EthereumObserver outcome option" where
  "seed_loop fuel nodes k blocknum e =
     (if blocknum \<noteq> 0 then Some (Return e)
      else case fuel of
        0 \<Rightarrow> None
      | Suc fuel' \<Rightarrow>
          (case GetBlockNumber (nodes k) of
             Panic \<Rightarrow> Some Panic
           | Return (Inl err) \<Rightarrow> seed_loop fuel' nodes (Suc k) blocknum e
           | Return (Inr blockNum) \<Rightarrow>
               (case ParseInt (drop 2 blockNum) of
                  Inl err \<Rightarrow> seed_loop fuel' nodes (Suc k) blocknum e
                | Inr parsed \<Rightarrow>
                    seed_loop fuel' nodes (Suc k) blocknum (snd (updateLatestBlock parsed e)))))"

declare seed_loop.simps [simp del]

subsection \<open>\<open>ObserveChain\<close>: the gap scan of a polling iteration\<close>

text \<open>
  \<open>for i := e.latestBlock + 1; i < int(blockNumInt); i++ { e.addBlockToRead(i) }\<close>.
  Inside the loop \<open>i\<close> is below \<open>blockNumInt\<close>, so \<open>i++\<close> does not wrap and the loop ends.
\<close>

function add_blocks_loop :: "go_int \<Rightarrow> go_int \<Rightarrow> EthereumObserver \<Rightarrow> EthereumObserver" where
  "add_blocks_loop i blockNumInt e =
     (if sint i < sint blockNumInt then add_blocks_loop (i + 1) blockNumInt (addBlockToRead i e)
      else e)"
  by pat_completeness auto
termination
proof (relation "measure (\<lambda>(i, blockNumInt, e). nat (sint blockNumInt - sint i))")
  show "wf (measure (\<lambda>(i :: go_int, blockNumInt :: go_int, e :: EthereumObserver).
              nat (sint blockNumInt - sint i)))"
    by simp
next
  fix i blockNumInt :: go_int and e :: EthereumObserver
  assume below: "sint i < sint blockNumInt"
  have "sint blockNumInt < 2 ^ 63"
    using sint_lt [of blockNumInt] by simp
  moreover have "- (2 ^ 63) \<le> sint i"
    using sint_ge [of i] by simp
  ultimately have "sint (i + 1) = sint i + 1"
    using below by (simp add: sint_word_ariths signed_take_bit_int_eq_self)
  with below
  show "((i + 1, blockNumInt, addBlockToRead i e), (i, blockNumInt, e))
          \<in> measure (\<lambda>(i, blockNumInt, e). nat (sint blockNumInt - sint i))"
    by simp
qed

declare add_blocks_loop.simps [simp del]

definition gap_scan :: "go_int \<Rightarrow> EthereumObserver \<Rightarrow> EthereumObserver" where
  "gap_scan blockNumInt e = add_blocks_loop (latestBlock e + 1) blockNumInt e"

subsection \<open>Which accesses hold \<open>mux\<close>\<close>

text \<open>
  The accesses of a method to the three guarded fields, and its calls of \<open>mux.Lock\<close> and
  \<open>mux.Unlock\<close> (a deferred unlock comes last), in the order the source performs them.
\<close>

datatype field = F_latestBlock | F_blocksToRead | F_subscribedAddress

datatype access = Lock | Unlock | Read field | Write field

definition addBlockToRead_accesses :: "access list" where
  "addBlockToRead_accesses = [Lock, Write F_blocksToRead, Unlock]"

definition removeBlockToRead_accesses :: "access list" where
  "removeBlockToRead_accesses = [Lock, Write F_blocksToRead, Unlock]"

text \<open>\<open>updated\<close>: the branch \<open>blockNum > e.latestBlock\<close> is taken.\<close>

definition updateLatestBlock_accesses :: "bool \<Rightarrow> access list" where
  "updateLatestBlock_accesses updated =
     [Lock, Read F_latestBlock]
     @ (if updated then [Write F_latestBlock, Read F_latestBlock] else [])
     @ [Unlock]"

text \<open>\<open>present\<close>: the address is subscribed already.\<close>

definition Subscribe_accesses :: "bool \<Rightarrow> access list" where
  "Subscribe_accesses present =
     [Lock, Read F_subscribedAddress]
     @ (if present then [] else [Write F_subscribedAddress])
     @ [Unlock]"

definition GetCurrentBlock_accesses :: "access list" where
  "GetCurrentBlock_accesses = [Read F_latestBlock]"

text \<open>
  The gap scan of a polling iteration that adds \<open>gap\<close> blocks: the loop's initialisation
  reads \<open>e.latestBlock\<close> in \<open>ObserveChain\<close> itself, then come the calls of
  \<open>addBlockToRead\<close>.
\<close>

definition gap_scan_accesses :: "nat \<Rightarrow> access list" where
  "gap_scan_accesses gap = Read F_latestBlock # concat (replicate gap addBlockToRead_accesses)"

text \<open>Every read and write of a guarded field happens while the lock is held.\<close>

fun under_lock :: "bool \<Rightarrow> access list \<Rightarrow> bool" where
  "under_lock held [] = True"
| "under_lock held (Lock # rest) = under_lock True rest"
| "under_lock held (Unlock # rest) = under_lock False rest"
| "under_lock held (Read f # rest) = (held \<and> under_lock held rest)"
| "under_lock held (Write f # rest) = (held \<and> under_lock held rest)"

subsection \<open>Sequences of \<open>UpdateTransactions\<close> calls\<close>

text \<open>A sequence of calls, each with the node as it answers at that call.\<close>

fun update_all :: "(rpc \<times> go_int) list \<Rightarrow> EthereumObserver \<Rightarrow> EthereumObserver" where
  "update_all [] e = e"
| "update_all ((node, blockNum) # calls) e = update_all calls (UpdateTransactions node blockNum e)"

subsection \<open>Inputs of the examples\<close>

definition reply :: "raw_message \<Rightarrow> go_int \<Rightarrow> rpc" where
  "reply res i = (\<lambda>request. Some \<lparr>Jsonrpc_resp = ''2.0'', Result = res, Error = None, Id_resp = i\<rparr>)"

definition error_reply :: "go_int \<Rightarrow> rpc" where
  "error_reply i =
     (\<lambda>request. Some \<lparr>Jsonrpc_resp = ''2.0'', Result = RawOther,
                       Error = Some \<lparr>Code = - 32601, Message = ''Method not found''\<rparr>,
                       Id_resp = i\<rparr>)"

definition no_reply :: rpc where
  "no_reply = (\<lambda>request. None)"

definition transfer :: "string \<Rightarrow> string \<Rightarrow> string \<Rightarrow> Transaction" where
  "transfer h sender receiver =
     \<lparr>BlockHash = [], BlockNumber = [], From = sender, Gas = [], GasPrice = [],
      MaxFeePerGas = [], MaxPriorityFeePerGas = [], Hash = h, Input = [], Nonce = [],
      To = receiver, TransactionIndex = [], Value = [], Type = [], AccessList = [],
      ChainId = [], V = [], R = [], S = [], YParity = []\<rparr>"

section \<open>Properties of the RPC client boundary\<close>

text \<open>
  Claim C10. \<open>QueryEthClient\<close> looks at the error field of the response before it compares
  the ids: a response that carries an error object and whose id differs from the request's
  yields the protocol error with the code and message of that object, and the id-mismatch
  error is returned only for a decoded response whose error field is absent (and whose id
  differs).
\<close>

theorem QueryEthClient_error_before_id:
  "(node request = Some response \<and> Error response = Some er
      \<and> Id_resp response \<noteq> Id_req request
      \<longrightarrow> QueryEthClient node request = Inl (RpcError (Code er) (Message er)))
   \<and> (QueryEthClient node request = Inl IdMismatchError
      \<longrightarrow> (\<exists>response. node request = Some response \<and> Error response = None
            \<and> Id_resp response \<noteq> Id_req request))"
  by (auto simp: QueryEthClient_def split: option.splits if_splits)

text \<open>
  At the request with id 0: a response with id 1 that carries the error -32601 yields that
  protocol error, and a response with id 1 and no error yields the id-mismatch error.
\<close>

theorem QueryEthClient_error_before_id_witness:
  "QueryEthClient (error_reply 1)
       \<lparr>Jsonrpc_req = ''2.0'', Method = ''eth_blockNumber'', Params = [], Id_req = 0\<rparr>
     = Inl (RpcError (- 32601) ''Method not found'')
   \<and> QueryEthClient (reply (RawString ''0x1b4'') 1)
       \<lparr>Jsonrpc_req = ''2.0'', Method = ''eth_blockNumber'', Params = [], Id_req = 0\<rparr>
     = Inl IdMismatchError
   \<and> (\<exists>response. reply (RawString ''0x1b4'') 1
          \<lparr>Jsonrpc_req = ''2.0'', Method = ''eth_blockNumber'', Params = [], Id_req = 0\<rparr>
          = Some response \<and> Error response = None \<and> Id_resp response \<noteq> 0)"
proof -
  let ?request = "\<lparr>Jsonrpc_req = ''2.0'', Method = ''eth_blockNumber'', Params = [],
                    Id_req = (0 :: go_int)\<rparr>"
  let ?response = "\<lparr>Jsonrpc_resp = ''2.0'', Result = RawOther,
                     Error = Some \<lparr>Code = - 32601, Message = ''Method not found''\<rparr>,
                     Id_resp = (1 :: go_int)\<rparr>"
  have hyp: "error_reply 1 ?request = Some ?response \<and> Error ?response
               = Some \<lparr>Code = - 32601, Message = ''Method not found''\<rparr>
             \<and> Id_resp ?response \<noteq> Id_req ?request"
    by (simp add: error_reply_def)
  have first: "QueryEthClient (error_reply 1) ?request
                 = Inl (RpcError (- 32601) ''Method not found'')"
    using QueryEthClient_error_before_id
            [of "error_reply 1" ?request ?response
                "\<lparr>Code = - 32601, Message = ''Method not found''\<rparr>"] hyp
    by simp
  have mismatch: "QueryEthClient (reply (RawString ''0x1b4'') 1) ?request = Inl IdMismatchError"
    by (simp add: QueryEthClient_def reply_def)
  have second: "\<exists>response. reply (RawString ''0x1b4'') 1 ?request = Some response
                  \<and> Error response = None \<and> Id_resp response \<noteq> Id_req ?request"
    using QueryEthClient_error_before_id
            [of "reply (RawString ''0x1b4'') 1" ?request ?response
                "\<lparr>Code = - 32601, Message = ''Method not found''\<rparr>"] mismatch
    by blast
  from first mismatch second show ?thesis by simp
qed

section \<open>Block numbers as hexadecimal strings\<close>

lemma digit_value_hexdigit: "d < 16 \<Longrightarrow> digit_value (hexdigit d) = Some d"
proof -
  assume "d < 16"
  then have "d \<in> {0, 1, 2, 3, 4, 5, 6, 7, 8, 9, 10, 11, 12, 13, 14, 15}"
    by simp arith
  then show ?thesis
    by (auto simp: digit_value_def hexdigit_def lower_def)
qed

lemma hexdigit_no_sign: "d < 16 \<Longrightarrow> hexdigit d \<noteq> CHR ''+'' \<and> hexdigit d \<noteq> CHR ''-''"
proof -
  assume "d < 16"
  then have "d \<in> {0, 1, 2, 3, 4, 5, 6, 7, 8, 9, 10, 11, 12, 13, 14, 15}"
    by simp arith
  then show ?thesis
    by (auto simp: hexdigit_def)
qed

lemma parse_loop_append:
  "parse_loop n (xs @ ys) = (case parse_loop n xs of Inl err \<Rightarrow> Inl err | Inr m \<Rightarrow> parse_loop m ys)"
  by (induction xs arbitrary: n) (auto split: option.splits)

lemma hex_not_empty: "hex u \<noteq> []"
  by (subst hex.simps) simp

lemma hd_hex: "hd (hex u) \<noteq> CHR ''+'' \<and> hd (hex u) \<noteq> CHR ''-''"
proof (induction u rule: hex.induct)
  case (1 u)
  show ?case
  proof (cases "u < 16")
    case True
    then show ?thesis using hexdigit_no_sign [of u] by (subst (1 2) hex.simps) simp
  next
    case False
    then show ?thesis using 1 hex_not_empty [of "u div 16"]
      by (subst (1 2) hex.simps) simp
  qed
qed

text \<open>The digits of \<open>u\<close> parse back to \<open>u\<close>; the range test of the loop never fires.\<close>

lemma parse_loop_hex: "u < 2 ^ 64 \<Longrightarrow> parse_loop 0 (hex u) = Inr u"
proof (induction u rule: hex.induct)
  case (1 u)
  show ?case
  proof (cases "u < 16")
    case True
    then show ?thesis
      by (subst hex.simps) (simp add: digit_value_hexdigit)
  next
    case False
    have small: "u div 16 < 2 ^ 60" using "1.prems" by simp
    then have "u div 16 < 2 ^ 64" by simp
    with False 1 have "parse_loop 0 (hex (u div 16)) = Inr (u div 16)" by simp
    with False small show ?thesis
      by (subst hex.simps) (simp add: parse_loop_append digit_value_hexdigit)
  qed
qed

lemma ParseInt_hex: "u < 2 ^ 63 \<Longrightarrow> ParseInt (hex u) = Inr (of_nat u)"
proof -
  assume u: "u < 2 ^ 63"
  then have "u < 2 ^ 64" by simp
  then have "parse_loop 0 (hex u) = Inr u" by (rule parse_loop_hex)
  with u show ?thesis
    using hd_hex [of u] hex_not_empty [of u]
    by (simp add: ParseInt_def ParseUint_def Let_def)
qed

text \<open>
  Claim C8. Block-number round trip: for every \<open>int\<close> \<open>n \<ge> 0\<close>, formatting \<open>n\<close> with
  \<open>"0x%x"\<close> as \<open>UpdateTransactions\<close> does, and parsing what follows the first two bytes in
  base 16 as \<open>ObserveChain\<close> does, gives \<open>n\<close> back, without error.
\<close>

theorem block_number_round_trip:
  "0 \<le> sint n \<Longrightarrow> ParseInt (drop 2 (Sprintf_0x n)) = Inr n"
proof -
  assume nonneg: "0 \<le> sint n"
  have "sint n < 2 ^ 63" using sint_lt [of n] by simp
  with nonneg have bound: "nat (sint n) < 2 ^ 63" by simp
  have "(of_nat (nat (sint n)) :: go_int) = n" using nonneg by simp
  with ParseInt_hex [OF bound] nonneg show ?thesis
    by (simp add: Sprintf_0x_def)
qed

text \<open>Block 436 is written \<open>0x1b4\<close>, and \<open>1b4\<close> parses to 436.\<close>

theorem block_number_round_trip_witness:
  "0 \<le> sint (436 :: go_int) \<and> Sprintf_0x 436 = ''0x1b4'' \<and> ParseInt ''1b4'' = Inr 436"
proof -
  have nonneg: "0 \<le> sint (436 :: go_int)" by simp
  have fmt: "Sprintf_0x 436 = ''0x1b4''"
    by (simp add: Sprintf_0x_def hex.simps hexdigit_def)
  from block_number_round_trip [OF nonneg] fmt nonneg show ?thesis by simp
qed

section \<open>The block fetcher: the head number\<close>

text \<open>
  A result string of two bytes or more is checked as intended: without the prefix \<open>0x\<close>,
  or with a rest that does not parse in base 16, the call returns an error, and otherwise
  it returns the string.
\<close>

lemma GetBlockNumber_checked:
  "2 \<le> length s \<Longrightarrow>
     GetBlockNumber (reply (RawString s) 0)
       = Return (if take 2 s \<noteq> ''0x'' then Inl InvalidBlockNumber
                 else case ParseInt (drop 2 s) of Inl err \<Rightarrow> Inl err | Inr _ \<Rightarrow> Inr s)"
  by (simp add: GetBlockNumber_def QueryEthClient_def reply_def split: sum.splits)

lemma ParseInt_1b4: "ParseInt ''1b4'' = Inr 436"
  by (simp add: ParseInt_def ParseUint_def digit_value_def lower_def)

lemma GetBlockNumber_0x1b4:
  "GetBlockNumber (reply (RawString ''0x1b4'') 0) = Return (Inr ''0x1b4'')"
  by (simp add: GetBlockNumber_checked ParseInt_1b4)

text \<open>
  Claim C2 says that \<open>GetBlockNumber\<close> returns an error, and never panics, for every
  result string without the prefix \<open>0x\<close>, the empty string and a string of one character
  included. The source slices \<open>blockNum[:2]\<close> before any test of the length: on the result
  \<open>""\<close> and on the result \<open>"0"\<close> (id 0, no error object) the call panics.
\<close>

theorem GetBlockNumber_short_result_panics:
  "GetBlockNumber (reply (RawString '''') 0) = Panic
   \<and> GetBlockNumber (reply (RawString ''0'') 0) = Panic"
  by (simp add: GetBlockNumber_def QueryEthClient_def reply_def)

section \<open>The seed loop\<close>

text \<open>Started with \<open>blocknum = 0\<close>, the loop never leaves through its condition.\<close>

lemma seed_loop_never_exits: "seed_loop fuel nodes k 0 e \<noteq> Some (Return e')"
proof (induction fuel arbitrary: k e)
  case 0
  show ?case by (simp add: seed_loop.simps)
next
  case (Suc fuel)
  show ?case
    by (subst seed_loop.simps) (simp add: Suc split: outcome.splits sum.splits)
qed

lemma seed_loop_runs_on:
  "(\<forall>k. GetBlockNumber (nodes k) \<noteq> Panic) \<Longrightarrow> seed_loop fuel nodes k 0 e = None"
proof (induction fuel arbitrary: k e)
  case 0
  show ?case by (simp add: seed_loop.simps)
next
  case (Suc fuel)
  then show ?case
    by (subst seed_loop.simps) (simp split: outcome.splits sum.splits)
qed

text \<open>
  Claim C1 says that the seed loop, once a call of \<open>GetBlockNumber\<close> has succeeded and its
  result has parsed, sets the watermark and terminates. Against a node that answers every
  call with \<open>"0x1b4"\<close>, the first iteration of a new observer sets the watermark to 436
  and goes on with the loop variable still 0, and the loop is still running after any
  number of iterations, from any state.
\<close>

theorem seed_loop_does_not_terminate:
  "seed_loop (Suc fuel) (\<lambda>k. reply (RawString ''0x1b4'') 0) 0 0 (NewEthereumObserver ep NewMemStore)
     = seed_loop fuel (\<lambda>k. reply (RawString ''0x1b4'') 0) 1 0
         ((NewEthereumObserver ep NewMemStore)\<lparr>latestBlock := 436\<rparr>)
   \<and> seed_loop fuel (\<lambda>k. reply (RawString ''0x1b4'') 0) k 0 e = None"
proof
  show "seed_loop (Suc fuel) (\<lambda>k. reply (RawString ''0x1b4'') 0) 0 0 (NewEthereumObserver ep NewMemStore)
     = seed_loop fuel (\<lambda>k. reply (RawString ''0x1b4'') 0) 1 0
         ((NewEthereumObserver ep NewMemStore)\<lparr>latestBlock := 436\<rparr>)"
    by (subst seed_loop.simps)
       (simp add: GetBlockNumber_0x1b4 ParseInt_1b4 updateLatestBlock_def NewEthereumObserver_def)
next
  show "seed_loop fuel (\<lambda>k. reply (RawString ''0x1b4'') 0) k 0 e = None"
    by (rule seed_loop_runs_on) (simp add: GetBlockNumber_0x1b4)
qed

section \<open>The address filter\<close>

text \<open>
  The list under an address: for every transaction in scan order, the transaction once if
  the address is its sender, and once more if the address is its receiver. An address that
  is not subscribed, or that no transaction names, has no entry.
\<close>

lemma collect_loop_entry:
  "collect_loop subs txs m a =
     (let found = concat (map (\<lambda>t. (if From t = a then [t] else []) @ (if To t = a then [t] else [])) txs)
      in if a \<in> subs \<and> found \<noteq> [] then Some (lookup_txs m a @ found) else m a)"
proof (induction txs arbitrary: m)
  case Nil
  show ?case by simp
next
  case (Cons t txs)
  show ?case
    by (auto simp: Cons collect_address_def lookup_txs_def Let_def split: option.splits)
qed

lemma collectSubscribedAddresses_entry:
  "collectSubscribedAddresses e txs a =
     (let found = concat (map (\<lambda>t. (if From t = a then [t] else []) @ (if To t = a then [t] else [])) txs)
      in if a \<in> subscribedAddress e \<and> found \<noteq> [] then Some found else None)"
  by (simp add: collectSubscribedAddresses_def collect_loop_entry lookup_txs_def)

lemma collectSubscribedAddresses_no_empty_list: "collectSubscribedAddresses e txs a \<noteq> Some []"
  by (simp add: collectSubscribedAddresses_entry Let_def)

text \<open>
  Claim C3 says, among other things, that a transaction whose sender equals its receiver
  appears exactly once under that address. The inner loop runs over \<open>From\<close> and \<open>To\<close>
  without comparing them: with \<open>0x2\<close> subscribed, the transaction \<open>0x1\<close> from \<open>0x2\<close> to
  \<open>0x2\<close> is listed twice under \<open>0x2\<close>.
\<close>

theorem collectSubscribedAddresses_self_transfer_twice:
  "collectSubscribedAddresses
      ((NewEthereumObserver ep NewMemStore)\<lparr>subscribedAddress := {''0x2''}\<rparr>)
      [transfer ''0x1'' ''0x2'' ''0x2''] ''0x2''
     = Some [transfer ''0x1'' ''0x2'' ''0x2'', transfer ''0x1'' ''0x2'' ''0x2'']"
  by (simp add: collectSubscribedAddresses_def collect_address_def lookup_txs_def transfer_def)

section \<open>\<open>UpdateTransactions\<close>\<close>

text \<open>
  Claim C4. If the fetch of block \<open>n\<close> inside \<open>UpdateTransactions\<close> fails, the store and
  the watermark are as before and \<open>n\<close> is in the pending set: the call changes nothing
  but the pending set, into which it inserts \<open>n\<close>.
\<close>

theorem UpdateTransactions_fetch_failure:
  "GetBlockByNumber node (Sprintf_0x n) = Inl err \<Longrightarrow>
     transactionsStore (UpdateTransactions node n e) = transactionsStore e
     \<and> latestBlock (UpdateTransactions node n e) = latestBlock e
     \<and> blocksToRead (UpdateTransactions node n e) = insert n (blocksToRead e)
     \<and> UpdateTransactions node n e = e\<lparr>blocksToRead := insert n (blocksToRead e)\<rparr>"
  by (simp add: UpdateTransactions_def addBlockToRead_def)

text \<open>Block 1 against a node that does not answer, with block 0 pending.\<close>

theorem UpdateTransactions_fetch_failure_witness:
  "GetBlockByNumber no_reply (Sprintf_0x 1) = Inl TransportError
   \<and> UpdateTransactions no_reply 1 ((NewEthereumObserver [] NewMemStore)\<lparr>blocksToRead := {0}\<rparr>)
       = (NewEthereumObserver [] NewMemStore)\<lparr>blocksToRead := {1, 0}\<rparr>"
proof -
  have failure: "GetBlockByNumber no_reply (Sprintf_0x 1) = Inl TransportError"
    by (simp add: GetBlockByNumber_def QueryEthClient_def no_reply_def)
  from UpdateTransactions_fetch_failure
         [OF failure, of "(NewEthereumObserver [] NewMemStore)\<lparr>blocksToRead := {0}\<rparr>"]
       failure
  show ?thesis by simp
qed

section \<open>\<open>Subscribe\<close>\<close>

text \<open>
  Claim C7. \<open>Subscribe\<close> is idempotent: a call with an address that is not subscribed
  (always so on a new observer) returns true and inserts the lower-cased address; a second
  call with the same address in any casing, that is with any string of the same lower-case
  form, returns false and leaves the state as it is, so the set does not grow.
\<close>

theorem Subscribe_idempotent:
  "(ToLower address \<notin> subscribedAddress e \<longrightarrow>
      Subscribe ToLower address e
        = (True, e\<lparr>subscribedAddress := insert (ToLower address) (subscribedAddress e)\<rparr>))
   \<and> fst (Subscribe ToLower address (NewEthereumObserver ep txStore))
   \<and> (ToLower address' = ToLower address \<longrightarrow>
        Subscribe ToLower address' (snd (Subscribe ToLower address e))
          = (False, snd (Subscribe ToLower address e))
        \<and> card (subscribedAddress (snd (Subscribe ToLower address' (snd (Subscribe ToLower address e)))))
            = card (subscribedAddress (snd (Subscribe ToLower address e))))"
  by (simp add: Subscribe_def NewEthereumObserver_def)

lemma ascii_ToLower_example: "ascii_ToLower ''0xAbC1'' = ''0xabc1''"
  by code_simp

text \<open>On a new observer, \<open>0xAbC1\<close> is subscribed as \<open>0xabc1\<close>; \<open>0xABC1\<close> then is refused.\<close>

theorem Subscribe_idempotent_witness:
  "Subscribe ascii_ToLower ''0xAbC1'' (NewEthereumObserver [] NewMemStore)
     = (True, (NewEthereumObserver [] NewMemStore)\<lparr>subscribedAddress := {''0xabc1''}\<rparr>)
   \<and> Subscribe ascii_ToLower ''0xABC1''
        ((NewEthereumObserver [] NewMemStore)\<lparr>subscribedAddress := {''0xabc1''}\<rparr>)
     = (False, (NewEthereumObserver [] NewMemStore)\<lparr>subscribedAddress := {''0xabc1''}\<rparr>)"
proof -
  let ?e = "NewEthereumObserver [] NewMemStore"
  let ?once = "Subscribe ascii_ToLower ''0xAbC1'' ?e"
  note idem = Subscribe_idempotent [of ascii_ToLower "''0xAbC1''" ?e "[]" NewMemStore "''0xABC1''"]
  have fresh: "ascii_ToLower ''0xAbC1'' \<notin> subscribedAddress ?e"
    by (simp add: NewEthereumObserver_def)
  have same: "ascii_ToLower ''0xABC1'' = ascii_ToLower ''0xAbC1''"
    by code_simp
  have first: "?once = (True, ?e\<lparr>subscribedAddress :=
                  insert (ascii_ToLower ''0xAbC1'') (subscribedAddress ?e)\<rparr>)"
    using idem fresh by blast
  have after: "?e\<lparr>subscribedAddress := insert (ascii_ToLower ''0xAbC1'') (subscribedAddress ?e)\<rparr>
                 = ?e\<lparr>subscribedAddress := {''0xabc1''}\<rparr>"
    by (simp add: ascii_ToLower_example NewEthereumObserver_def)
  have second: "Subscribe ascii_ToLower ''0xABC1'' (snd ?once) = (False, snd ?once)"
    using idem same by blast
  from first after second show ?thesis by simp
qed

section \<open>The store after \<open>UpdateTransactions\<close>\<close>

text \<open>
  Calling \<open>AddTransactions\<close> once for every key of the map, in any order of the keys,
  gives the store that \<open>store_all\<close> describes.
\<close>

lemma store_all_step:
  "k \<notin> ks \<Longrightarrow> tba k = Some v \<Longrightarrow>
     store_all (tba |` ks) (memStore_AddTransactions k v m) = store_all (tba |` insert k ks) m"
  by (auto simp: store_all_def memStore_AddTransactions_def lookup_txs_def restrict_map_def
        fun_eq_iff split: option.splits)

lemma store_all_fold_restrict:
  "distinct ks \<Longrightarrow> set ks \<subseteq> dom tba \<Longrightarrow>
     fold (\<lambda>address. memStore_AddTransactions address (the (tba address))) ks m
       = store_all (tba |` set ks) m"
proof (induction ks arbitrary: m)
  case Nil
  show ?case by (simp add: store_all_def)
next
  case (Cons k ks)
  from Cons.prems obtain v where v: "tba k = Some v" by auto
  from Cons.prems have "k \<notin> set ks" by simp
  then have "store_all (tba |` set ks) (memStore_AddTransactions k v m)
               = store_all (tba |` insert k (set ks)) m"
    using v by (rule store_all_step)
  with Cons show ?case by (simp add: v)
qed

lemma store_all_fold:
  "distinct ks \<Longrightarrow> set ks = dom tba \<Longrightarrow>
     fold (\<lambda>address. memStore_AddTransactions address (the (tba address))) ks m
       = store_all tba m"
proof -
  assume d: "distinct ks" and s: "set ks = dom tba"
  have "tba |` dom tba = tba" by (rule ext) (simp add: restrict_map_def domIff)
  with store_all_fold_restrict [OF d, of tba m] s show ?thesis by simp
qed

section \<open>Signed arithmetic of the block counter\<close>

lemma sint_succ: "sint (i :: go_int) < sint (h :: go_int) \<Longrightarrow> sint (i + 1) = sint i + 1"
proof -
  assume below: "sint i < sint h"
  have "sint h < 2 ^ 63" using sint_lt [of h] by simp
  moreover have "- (2 ^ 63) \<le> sint i" using sint_ge [of i] by simp
  ultimately show ?thesis using below
    by (simp add: sint_word_ariths signed_take_bit_int_eq_self)
qed

lemma sint_inject: "sint (x :: go_int) = sint (y :: go_int) \<Longrightarrow> x = y"
  by (rule signed_word_eqI)

section \<open>The gap scan\<close>

text \<open>The loop adds the numbers from its start value up to, and without, the head.\<close>

lemma add_blocks_loop_pending:
  "blocksToRead (add_blocks_loop i h e)
     = blocksToRead e \<union> {n. sint i \<le> sint n \<and> sint n < sint h}"
proof (induction i h e rule: add_blocks_loop.induct)
  case (1 i h e)
  show ?case
  proof (cases "sint i < sint h")
    case True
    have "(sint i \<le> sint n \<and> sint n < sint h)
            = (n = i \<or> (sint (i + 1) \<le> sint n \<and> sint n < sint h))" for n
    proof (cases "n = i")
      case same: True
      with True show ?thesis by simp
    next
      case other: False
      then have "sint n \<noteq> sint i" using sint_inject [of n i] by blast
      with other sint_succ [OF True] show ?thesis by auto
    qed
    then have "{n. sint i \<le> sint n \<and> sint n < sint h}
            = insert i {n. sint (i + 1) \<le> sint n \<and> sint n < sint h}"
      by auto
    with True 1 show ?thesis
      by (subst add_blocks_loop.simps) (simp add: addBlockToRead_def)
  next
    case False
    then have stop: "add_blocks_loop i h e = e"
      by (subst add_blocks_loop.simps) simp
    from False have "{n. sint i \<le> sint n \<and> sint n < sint h} = {}" by auto
    then show ?thesis unfolding stop by blast
  qed
qed

lemma add_blocks_loop_others:
  "latestBlock (add_blocks_loop i h e) = latestBlock e
   \<and> subscribedAddress (add_blocks_loop i h e) = subscribedAddress e
   \<and> transactionsStore (add_blocks_loop i h e) = transactionsStore e"
proof (induction i h e rule: add_blocks_loop.induct)
  case (1 i h e)
  then show ?case
    by (subst (1 2 3) add_blocks_loop.simps) (simp add: addBlockToRead_def)
qed

text \<open>
  Claim C6, as stated, says that the gap scan of a polling iteration with head \<open>h\<close> and
  watermark \<open>w\<close> inserts exactly the numbers \<open>n\<close> with \<open>w + 1 \<le> n \<le> h - 1\<close>. With the
  watermark at the largest \<open>int\<close>, \<open>e.latestBlock + 1\<close> wraps to the smallest one: for the
  head 0 the scan inserts \<open>-9223372036854775808\<close>, which was not pending and is not above
  the watermark.
\<close>

theorem gap_scan_wraps_at_max_int:
  "(- 9223372036854775808 :: go_int)
      \<in> blocksToRead (gap_scan 0 ((NewEthereumObserver [] NewMemStore)\<lparr>latestBlock := 9223372036854775807\<rparr>))
   \<and> (- 9223372036854775808 :: go_int)
      \<notin> blocksToRead ((NewEthereumObserver [] NewMemStore)\<lparr>latestBlock := 9223372036854775807\<rparr>)
   \<and> \<not> (sint (9223372036854775807 :: go_int) + 1 \<le> sint (- 9223372036854775808 :: go_int))"
  by (simp add: gap_scan_def add_blocks_loop_pending NewEthereumObserver_def)

text \<open>
  Claim C6, amended. If the watermark \<open>w\<close> is below the largest \<open>int\<close>, the gap scan of a
  polling iteration with head \<open>h\<close> leaves as pending set the prior one together with
  exactly the numbers \<open>n\<close> with \<open>w + 1 \<le> n \<le> h - 1\<close>; the head itself is pending
  afterwards only if it was before; and inserting a number that is pending already leaves
  the state as it is.
\<close>

theorem gap_scan_pending:
  "sint (latestBlock e) < 2 ^ 63 - 1 \<Longrightarrow>
     blocksToRead (gap_scan h e)
       = blocksToRead e \<union> {n. sint (latestBlock e) + 1 \<le> sint n \<and> sint n \<le> sint h - 1}
     \<and> (h \<in> blocksToRead (gap_scan h e) \<longleftrightarrow> h \<in> blocksToRead e)
     \<and> (n \<in> blocksToRead e \<longrightarrow> addBlockToRead n e = e)"
proof -
  assume "sint (latestBlock e) < 2 ^ 63 - 1"
  then have "sint (latestBlock e + 1) = sint (latestBlock e) + 1"
    using sint_ge [of "latestBlock e"]
    by (simp add: sint_word_ariths signed_take_bit_int_eq_self)
  then have "{n. sint (latestBlock e + 1) \<le> sint n \<and> sint n < sint h}
               = {n. sint (latestBlock e) + 1 \<le> sint n \<and> sint n \<le> sint h - 1}"
    by auto
  then show ?thesis
    by (auto simp: gap_scan_def add_blocks_loop_pending addBlockToRead_def insert_absorb)
qed

text \<open>
  Watermark 3, block 1 pending, head 7: afterwards 1, 4 and 6 are pending, 3 and 7 are
  not, and inserting 1 again changes nothing.
\<close>

theorem gap_scan_pending_witness:
  "sint (3 :: go_int) < 2 ^ 63 - 1
   \<and> 1 \<in> blocksToRead (gap_scan 7 ((NewEthereumObserver [] NewMemStore)\<lparr>latestBlock := 3, blocksToRead := {1}\<rparr>))
   \<and> 4 \<in> blocksToRead (gap_scan 7 ((NewEthereumObserver [] NewMemStore)\<lparr>latestBlock := 3, blocksToRead := {1}\<rparr>))
   \<and> 6 \<in> blocksToRead (gap_scan 7 ((NewEthereumObserver [] NewMemStore)\<lparr>latestBlock := 3, blocksToRead := {1}\<rparr>))
   \<and> 3 \<notin> blocksToRead (gap_scan 7 ((NewEthereumObserver [] NewMemStore)\<lparr>latestBlock := 3, blocksToRead := {1}\<rparr>))
   \<and> 7 \<notin> blocksToRead (gap_scan 7 ((NewEthereumObserver [] NewMemStore)\<lparr>latestBlock := 3, blocksToRead := {1}\<rparr>))
   \<and> addBlockToRead 1 ((NewEthereumObserver [] NewMemStore)\<lparr>latestBlock := 3, blocksToRead := {1}\<rparr>)
       = (NewEthereumObserver [] NewMemStore)\<lparr>latestBlock := 3, blocksToRead := {1}\<rparr>"
proof -
  let ?e = "(NewEthereumObserver [] NewMemStore)\<lparr>latestBlock := 3, blocksToRead := {1}\<rparr>"
  have below: "sint (latestBlock ?e) < 2 ^ 63 - 1" by simp
  have pending: "1 \<in> blocksToRead ?e" by simp
  from gap_scan_pending [OF below, of 7 1] pending show ?thesis by simp
qed

section \<open>The watermark\<close>

lemma updateLatestBlock_max:
  "sint (latestBlock (snd (updateLatestBlock b e))) = max (sint (latestBlock e)) (sint b)"
  by (simp add: updateLatestBlock_def)

lemma UpdateTransactions_watermark:
  "latestBlock (UpdateTransactions node b e)
     = (case GetBlockByNumber node (Sprintf_0x b) of
          Inl err \<Rightarrow> latestBlock e
        | Inr txs \<Rightarrow> if sint b > sint (latestBlock e) then b else latestBlock e)"
  by (simp add: UpdateTransactions_def addBlockToRead_def updateLatestBlock_def Let_def
           split: sum.splits)

lemma UpdateTransactions_not_lower:
  "sint (latestBlock e) \<le> sint (latestBlock (UpdateTransactions node b e))"
  by (simp add: UpdateTransactions_watermark split: sum.splits)

lemma update_all_not_lower: "sint (latestBlock e) \<le> sint (latestBlock (update_all calls e))"
proof (induction calls arbitrary: e)
  case Nil
  show ?case by simp
next
  case (Cons c calls)
  obtain node b where c: "c = (node, b)" by (cases c)
  have "sint (latestBlock e) \<le> sint (latestBlock (UpdateTransactions node b e))"
    by (rule UpdateTransactions_not_lower)
  also have "\<dots> \<le> sint (latestBlock (update_all calls (UpdateTransactions node b e)))"
    by (rule Cons.IH)
  finally show ?case by (simp add: c)
qed

lemma update_all_fold_max:
  "\<forall>(node, b) \<in> set calls. \<exists>txs. GetBlockByNumber node (Sprintf_0x b) = Inr txs \<Longrightarrow>
     sint (latestBlock (update_all calls e))
       = fold max (map (sint \<circ> snd) calls) (sint (latestBlock e))"
proof (induction calls arbitrary: e)
  case Nil
  show ?case by simp
next
  case (Cons c calls)
  obtain node b where c: "c = (node, b)" by (cases c)
  from Cons.prems c obtain txs where ok: "GetBlockByNumber node (Sprintf_0x b) = Inr txs"
    by auto
  have step: "sint (latestBlock (UpdateTransactions node b e)) = max (sint b) (sint (latestBlock e))"
    by (simp add: UpdateTransactions_watermark ok)
  from Cons.prems have "\<forall>(node, b) \<in> set calls. \<exists>txs. GetBlockByNumber node (Sprintf_0x b) = Inr txs"
    by simp
  then show ?case
    by (simp add: c Cons.IH step)
qed

text \<open>
  Claim C5. The watermark never decreases: \<open>updateLatestBlock\<close>, \<open>UpdateTransactions\<close>
  and any sequence of \<open>UpdateTransactions\<close> calls leave it at least as large as it was,
  and \<open>addBlockToRead\<close>, \<open>removeBlockToRead\<close>, \<open>Subscribe\<close> and the gap scan do not touch
  it. After a sequence of \<open>UpdateTransactions\<close> calls with block numbers \<open>b1..bk\<close> whose
  fetches all succeed, the watermark is the maximum of \<open>b1..bk\<close> and the initial watermark.
  A call with a block number that is not above the watermark leaves the watermark
  unchanged. (The order is that of Go's signed \<open>int\<close>.)
\<close>

theorem watermark_monotone:
  "sint (latestBlock e) \<le> sint (latestBlock (snd (updateLatestBlock b e)))
   \<and> sint (latestBlock e) \<le> sint (latestBlock (UpdateTransactions node b e))
   \<and> sint (latestBlock e) \<le> sint (latestBlock (update_all calls e))
   \<and> latestBlock (addBlockToRead b e) = latestBlock e
   \<and> latestBlock (removeBlockToRead b e) = latestBlock e
   \<and> latestBlock (snd (Subscribe ToLower a e)) = latestBlock e
   \<and> latestBlock (gap_scan h e) = latestBlock e
   \<and> ((\<forall>(node, b) \<in> set calls. \<exists>txs. GetBlockByNumber node (Sprintf_0x b) = Inr txs) \<longrightarrow>
        sint (latestBlock (update_all calls e))
          = Max (set (sint (latestBlock e) # map (sint \<circ> snd) calls)))
   \<and> (sint b \<le> sint (latestBlock e) \<longrightarrow> latestBlock (UpdateTransactions node b e) = latestBlock e)"
proof -
  have "sint (latestBlock e) \<le> sint (latestBlock (snd (updateLatestBlock b e)))"
    by (simp add: updateLatestBlock_max)
  moreover have "latestBlock (snd (Subscribe ToLower a e)) = latestBlock e"
    by (simp add: Subscribe_def)
  moreover have "latestBlock (gap_scan h e) = latestBlock e"
    by (simp add: gap_scan_def add_blocks_loop_others)
  moreover have "sint (latestBlock (update_all calls e))
          = Max (set (sint (latestBlock e) # map (sint \<circ> snd) calls))"
    if "\<forall>(node, b) \<in> set calls. \<exists>txs. GetBlockByNumber node (Sprintf_0x b) = Inr txs"
    using update_all_fold_max [OF that] by (simp only: Max.set_eq_fold)
  moreover have "latestBlock (UpdateTransactions node b e) = latestBlock e"
    if "sint b \<le> sint (latestBlock e)"
    using that by (simp add: UpdateTransactions_watermark split: sum.splits)
  ultimately show ?thesis
    using UpdateTransactions_not_lower [of e node b] update_all_not_lower [of e calls]
    by (simp add: addBlockToRead_def removeBlockToRead_def)
qed

lemma GetBlockByNumber_empty_block:
  "GetBlockByNumber (reply (RawBlock []) 0) s = Inr []"
  by (simp add: GetBlockByNumber_def QueryEthClient_def reply_def)

text \<open>
  From watermark 4, the blocks 5 and 3 fetched in this order leave the watermark at 5;
  block 3 alone leaves it at 4.
\<close>

theorem watermark_monotone_witness:
  "sint (latestBlock (update_all [(reply (RawBlock []) 0, 5), (reply (RawBlock []) 0, 3)]
            ((NewEthereumObserver [] NewMemStore)\<lparr>latestBlock := 4\<rparr>))) = 5
   \<and> latestBlock (UpdateTransactions (reply (RawBlock []) 0) 3
            ((NewEthereumObserver [] NewMemStore)\<lparr>latestBlock := 4\<rparr>)) = 4"
proof -
  let ?e = "(NewEthereumObserver [] NewMemStore)\<lparr>latestBlock := 4\<rparr>"
  let ?calls = "[(reply (RawBlock []) 0, 5 :: go_int), (reply (RawBlock []) 0, 3)]"
  note mono = watermark_monotone [of ?e 3 "reply (RawBlock []) 0" ?calls id "[]" 0]
  have fetched: "\<forall>(node, b) \<in> set ?calls. \<exists>txs. GetBlockByNumber node (Sprintf_0x b) = Inr txs"
    by (simp add: GetBlockByNumber_empty_block)
  have older: "sint (3 :: go_int) \<le> sint (latestBlock ?e)" by simp
  from mono fetched have "sint (latestBlock (update_all ?calls ?e))
          = Max (set (sint (latestBlock ?e) # map (sint \<circ> snd) ?calls))"
    by blast
  moreover from mono older have "latestBlock (UpdateTransactions (reply (RawBlock []) 0) 3 ?e)
          = latestBlock ?e"
    by blast
  ultimately show ?thesis by simp
qed

section \<open>The lock\<close>

text \<open>
  Claim C9 says that every read and write of the watermark, the pending set and the
  subscription set goes through the lock, and that \<open>GetCurrentBlock\<close> in particular
  returns the watermark under the lock. \<open>addBlockToRead\<close>, \<open>removeBlockToRead\<close>,
  \<open>updateLatestBlock\<close> and \<open>Subscribe\<close> do take the lock around their accesses;
  \<open>GetCurrentBlock\<close> reads \<open>latestBlock\<close> without taking it, and so does the gap scan of
  \<open>ObserveChain\<close>.
\<close>

theorem GetCurrentBlock_reads_without_lock:
  "under_lock False addBlockToRead_accesses
   \<and> under_lock False removeBlockToRead_accesses
   \<and> under_lock False (updateLatestBlock_accesses updated)
   \<and> under_lock False (Subscribe_accesses present)
   \<and> \<not> under_lock False GetCurrentBlock_accesses
   \<and> \<not> under_lock False (gap_scan_accesses gap)"
  by (simp add: addBlockToRead_accesses_def removeBlockToRead_accesses_def
        updateLatestBlock_accesses_def Subscribe_accesses_def GetCurrentBlock_accesses_def
        gap_scan_accesses_def)

end
